theory Spec2Isabelle
  imports Complex_Main "HOL-Library.Multiset"
begin

section \<open>JavaScript values and strings\<close>

text \<open>
  The quiz engine of \<^verbatim>\<open>script.js\<close> stores in one array slot either
  \<^verbatim>\<open>null\<close>, an option index or one of the strings \<^verbatim>\<open>'correct'\<close> /
  \<^verbatim>\<open>'incorrect'\<close>, and compares slots with \<^verbatim>\<open>===\<close>. On these primitive
  values strict equality is equality of the tagged value, so \<^verbatim>\<open>a === b\<close> is
  \<open>a = b\<close> below. A property that an object does not have reads as \<open>JUndefined\<close>.
\<close>

datatype jsval = JUndefined | JNull | JNum nat | JStr string

text \<open>
  Strings are lists of the 8-bit characters of HOL, read as the code points
  U+0000 to U+00FF. On that range \<^verbatim>\<open>toLowerCase\<close> maps A-Z and the
  accented capitals U+00C0 to U+00DE (the multiplication sign U+00D7 apart) to the code
  point 32 higher,
  and the white space of \<^verbatim>\<open>trim\<close> and of the regular expression class
  \<^verbatim>\<open>\s\<close> is tab, line feed, vertical tab, form feed, carriage return, space and
  the no-break space.
\<close>

definition toLowerCase_char :: "char \<Rightarrow> char" where
  "toLowerCase_char c =
     (let n = (of_char c :: nat)
      in if (65 \<le> n \<and> n \<le> 90) \<or> (192 \<le> n \<and> n \<le> 222 \<and> n \<noteq> 215)
         then char_of (n + 32) else c)"

definition toLowerCase :: "string \<Rightarrow> string" where
  "toLowerCase s = map toLowerCase_char s"

definition is_white_space :: "char \<Rightarrow> bool" where
  "is_white_space c = ((of_char c :: nat) \<in> {9, 10, 11, 12, 13, 32, 160})"

definition trim :: "string \<Rightarrow> string" where
  "trim s = rev (dropWhile is_white_space (rev (dropWhile is_white_space s)))"

text \<open>\<^verbatim>\<open>.replace(/\s+/g, ' ')\<close>: every maximal run of white space becomes one space.\<close>

function replace_white_space_runs :: "string \<Rightarrow> string" where
  "replace_white_space_runs [] = []"
| "replace_white_space_runs (c # cs) =
     (if is_white_space c
      then CHR '' '' # replace_white_space_runs (dropWhile is_white_space cs)
      else c # replace_white_space_runs cs)"
  by pat_completeness auto
termination
  by (relation "measure length") (auto simp: le_imp_less_Suc length_dropWhile_le)

text \<open>\<^verbatim>\<open>.replace(/['"]/g, '"')\<close>: the apostrophe (U+0027) becomes the double quote.\<close>

definition replace_quotes :: "string \<Rightarrow> string" where
  "replace_quotes s = map (\<lambda>c. if c = CHR 0x27 \<or> c = CHR 0x22 then CHR 0x22 else c) s"

section \<open>Command equivalence (\<^verbatim>\<open>checkCommandEquivalence\<close>)\<close>

text \<open>The local function \<^verbatim>\<open>normalize\<close> of \<^verbatim>\<open>checkCommandEquivalence\<close>.\<close>

definition normalize_cmd :: "string \<Rightarrow> string" where
  "normalize_cmd cmd = replace_quotes (replace_white_space_runs (trim (toLowerCase cmd)))"

text \<open>
  \<^verbatim>\<open>variations[expectedNorm]\<close> is a property read on an object literal. It finds the
  three own keys, and it also finds the members that every object inherits from
  \<^verbatim>\<open>Object.prototype\<close>: those are truthy and have no \<^verbatim>\<open>some\<close> method, so
  the call \<^verbatim>\<open>variations[expectedNorm].some(...)\<close> raises a TypeError there.
\<close>

datatype variations_entry = Variants "string list" | Inherited

definition variations :: "string \<Rightarrow> variations_entry option" where
  "variations k =
     (if k = ''git add index.html''
        then Some (Variants [''git add index.html'', ''git add .''])
      else if k = ''git checkout feature-login''
        then Some (Variants [''git checkout feature-login'', ''git switch feature-login''])
      else if k = ''git checkout -b feature-login''
        then Some (Variants [''git checkout -b feature-login'', ''git switch -c feature-login''])
      else if k \<in> set [''constructor'', ''__proto__'', ''hasOwnProperty'', ''isPrototypeOf'',
                       ''propertyIsEnumerable'', ''toLocaleString'', ''toString'', ''valueOf'',
                       ''__defineGetter__'', ''__defineSetter__'', ''__lookupGetter__'',
                       ''__lookupSetter__'']
        then Some Inherited
      else None)"

text \<open>The result is \<open>None\<close> where the JavaScript raises the TypeError.\<close>

definition checkCommandEquivalence :: "string \<Rightarrow> string \<Rightarrow> bool option" where
  "checkCommandEquivalence userInput expectedCommand =
     (let normalizedUser = normalize_cmd userInput;
          normalizedExpected = normalize_cmd expectedCommand
      in if normalizedUser = normalizedExpected then Some True
         else (case variations normalizedExpected of
                 Some (Variants vs) \<Rightarrow> Some (list_ex (\<lambda>variant. normalize_cmd variant = normalizedUser) vs)
               | Some Inherited \<Rightarrow> None
               | None \<Rightarrow> Some False))"

subsection \<open>The normalization in the words of the specification\<close>

text \<open>
  The specification names four operations: the command is lower-cased, trimmed, its
  internal runs of white space are collapsed to single spaces, and its quote characters
  are brought to one style. Said without reference to the code: the normalized command
  is the list of the words of the command (its maximal stretches free of white space),
  every letter replaced by its small letter and every apostrophe by a double quote,
  joined by single spaces. The letters and the white space characters are listed one by
  one: A to Z and the accented capitals U+00C0 to U+00DE (without the multiplication sign
  U+00D7), each with its small letter at the same place of the second list.
\<close>

definition capital_letters :: string where
  "capital_letters =
     ''ABCDEFGHIJKLMNOPQRSTUVWXYZ'' @
       [CHR 0xC0, CHR 0xC1, CHR 0xC2, CHR 0xC3, CHR 0xC4, CHR 0xC5, CHR 0xC6, CHR 0xC7,
        CHR 0xC8, CHR 0xC9, CHR 0xCA, CHR 0xCB, CHR 0xCC, CHR 0xCD, CHR 0xCE, CHR 0xCF,
        CHR 0xD0, CHR 0xD1, CHR 0xD2, CHR 0xD3, CHR 0xD4, CHR 0xD5, CHR 0xD6, CHR 0xD8,
        CHR 0xD9, CHR 0xDA, CHR 0xDB, CHR 0xDC, CHR 0xDD, CHR 0xDE]"

definition small_letters :: string where
  "small_letters =
     ''abcdefghijklmnopqrstuvwxyz'' @
       [CHR 0xE0, CHR 0xE1, CHR 0xE2, CHR 0xE3, CHR 0xE4, CHR 0xE5, CHR 0xE6, CHR 0xE7,
        CHR 0xE8, CHR 0xE9, CHR 0xEA, CHR 0xEB, CHR 0xEC, CHR 0xED, CHR 0xEE, CHR 0xEF,
        CHR 0xF0, CHR 0xF1, CHR 0xF2, CHR 0xF3, CHR 0xF4, CHR 0xF5, CHR 0xF6, CHR 0xF8,
        CHR 0xF9, CHR 0xFA, CHR 0xFB, CHR 0xFC, CHR 0xFD, CHR 0xFE]"

definition spec_lower_case :: "char \<Rightarrow> char" where
  "spec_lower_case c =
     (case map_of (zip capital_letters small_letters) c of None \<Rightarrow> c | Some l \<Rightarrow> l)"

definition spec_quote_style :: "char \<Rightarrow> char" where
  "spec_quote_style c = (if c = CHR 0x27 then CHR 0x22 else c)"

definition spec_white_space :: "char \<Rightarrow> bool" where
  "spec_white_space c =
     (c \<in> set [CHR 0x09, CHR 0x0A, CHR 0x0B, CHR 0x0C, CHR 0x0D, CHR 0x20, CHR 0xA0])"

function spec_words :: "string \<Rightarrow> string list" where
  "spec_words [] = []"
| "spec_words (c # cs) =
     (if spec_white_space c then spec_words cs
      else (c # takeWhile (\<lambda>x. \<not> spec_white_space x) cs)
             # spec_words (dropWhile (\<lambda>x. \<not> spec_white_space x) cs))"
  by pat_completeness auto
termination
  by (relation "measure length") (auto simp: le_imp_less_Suc length_dropWhile_le)

fun spec_join :: "string list \<Rightarrow> string" where
  "spec_join [] = []"
| "spec_join [w] = w"
| "spec_join (w # v # ws) = w @ CHR '' '' # spec_join (v # ws)"

definition spec_normalize :: "string \<Rightarrow> string" where
  "spec_normalize cmd =
     spec_join (spec_words (map (\<lambda>c. spec_quote_style (spec_lower_case c)) cmd))"

section \<open>Questions and the state of the quiz\<close>

text \<open>
  An entry of the array \<^verbatim>\<open>quizQuestions\<close>. A multiple-choice entry has
  \<^verbatim>\<open>options\<close> and \<^verbatim>\<open>correct\<close> and no \<^verbatim>\<open>type\<close>; an interactive
  entry has \<^verbatim>\<open>type: "interactive"\<close> and a \<^verbatim>\<open>component\<close> and neither
  \<^verbatim>\<open>options\<close> nor \<^verbatim>\<open>correct\<close>. The properties \<^verbatim>\<open>type\<close> and
  \<^verbatim>\<open>section\<close> are the fields \<open>qtype\<close> and \<open>qsection\<close>.
\<close>

record quiz_question =
  question :: string
  options :: "string list option"
  correct :: jsval
  qsection :: string
  qtype :: jsval
  component :: jsval

text \<open>
  What \<^verbatim>\<open>Math.round((correctAnswers / shuffledQuestions.length) * 100)\<close> can be:
  an integer, \<^verbatim>\<open>NaN\<close> (from 0 / 0) or \<^verbatim>\<open>Infinity\<close> (from n / 0).
\<close>

datatype jsnum = Fin int | NaN | PosInfinity

text \<open>The module-level variables of the quiz.\<close>

record quiz_state =
  currentQuestionIndex :: nat
  userAnswers :: "jsval list"
  quizStarted :: bool
  quizCompleted :: bool
  finalQuizScore :: jsnum
  shuffledQuestions :: "quiz_question list"
  questionMapping :: "nat list"

text \<open>The values the variables are declared with, for a pool \<open>pool\<close>.\<close>

definition initial_state :: "quiz_question list \<Rightarrow> quiz_state" where
  "initial_state pool =
     \<lparr>currentQuestionIndex = 0, userAnswers = replicate (length pool) JNull,
      quizStarted = False, quizCompleted = False, finalQuizScore = Fin 0,
      shuffledQuestions = [], questionMapping = []\<rparr>"

text \<open>
  How a handler ends: it returns, it shows the alert of \<^verbatim>\<open>submitQuiz\<close> with the
  number of unanswered questions and returns, it raises a TypeError (a property read on
  \<^verbatim>\<open>undefined\<close>), or (\<^verbatim>\<open>submitQuiz\<close>) it has shown the results: the number of
  correct answers, the percentage, the pass flag and the \<^verbatim>\<open>isCorrect\<close> flag of
  every reviewed question. The state a handler leaves behind is returned beside it, also
  when it raises, since the assignments made before the exception stay.
\<close>

datatype signal = Returned | Alerted nat | Threw | Shown nat jsnum bool "bool list"

text \<open>
  An array read past the end gives \<^verbatim>\<open>undefined\<close>; an assignment past the end
  extends the array (the slots in between are written as \<open>JUndefined\<close>).
\<close>

definition array_at :: "'a list \<Rightarrow> nat \<Rightarrow> 'a option" where
  "array_at xs i = (if i < length xs then Some (xs ! i) else None)"

definition array_get :: "jsval list \<Rightarrow> nat \<Rightarrow> jsval" where
  "array_get xs i = (if i < length xs then xs ! i else JUndefined)"

definition array_set :: "jsval list \<Rightarrow> nat \<Rightarrow> jsval \<Rightarrow> jsval list" where
  "array_set xs i v =
     (if i < length xs then xs[i := v]
      else xs @ replicate (i - length xs) JUndefined @ [v])"

section \<open>Sampling (\<^verbatim>\<open>shuffleArray\<close>, \<^verbatim>\<open>initializeQuestions\<close>)\<close>

text \<open>
  The calls of \<^verbatim>\<open>Math.random()\<close> are a sequence \<open>random\<close> of rationals: the
  \<open>n\<close>-th call returns \<open>random n\<close>, which \<^verbatim>\<open>Math.random\<close> promises to be in
  \<open>[0, 1)\<close>. The loop runs \<open>i\<close> from the last index down to 1, draws
  \<open>j = \<lfloor>random * (i + 1)\<rfloor>\<close> and swaps the entries \<open>i\<close> and \<open>j\<close>.
\<close>

fun shuffle_loop :: "nat \<Rightarrow> (nat \<Rightarrow> rat) \<Rightarrow> 'a list \<Rightarrow> 'a list" where
  "shuffle_loop 0 random shuffled = shuffled"
| "shuffle_loop (Suc k) random shuffled =
     (let i = Suc k;
          j = nat \<lfloor>random 0 * of_nat (i + 1)\<rfloor>
      in shuffle_loop k (\<lambda>n. random (Suc n))
           (shuffled[i := shuffled ! j, j := shuffled ! i]))"

text \<open>
  The shuffle as the specification words it (Fisher-Yates): for \<open>i\<close> from the last index
  down to 1, swap element \<open>i\<close> with a chosen element at index \<open>pick i\<close>, which is to
  be at most \<open>i\<close>.
\<close>

fun fisher_yates :: "nat \<Rightarrow> (nat \<Rightarrow> nat) \<Rightarrow> 'a list \<Rightarrow> 'a list" where
  "fisher_yates 0 pick xs = xs"
| "fisher_yates (Suc k) pick xs =
     fisher_yates k pick (xs[Suc k := xs ! pick (Suc k), pick (Suc k) := xs ! Suc k])"

definition shuffleArray :: "(nat \<Rightarrow> rat) \<Rightarrow> 'a list \<Rightarrow> 'a list" where
  "shuffleArray random array = shuffle_loop (length array - 1) random array"

definition initializeQuestions ::
  "(nat \<Rightarrow> rat) \<Rightarrow> quiz_question list \<Rightarrow> quiz_state \<Rightarrow> quiz_state" where
  "initializeQuestions random pool s =
     (let indices = [0..<length pool];
          shuffledIndices = shuffleArray random indices;
          selectedIndices = take 20 shuffledIndices
      in s\<lparr>shuffledQuestions := map (\<lambda>index. pool ! index) selectedIndices,
           questionMapping := selectedIndices,
           userAnswers := replicate 20 JNull\<rparr>)"

section \<open>Navigation and answers\<close>

text \<open>
  \<^verbatim>\<open>displayCurrentQuestion\<close> only writes to the page. It reads
  \<^verbatim>\<open>question.type\<close> of \<^verbatim>\<open>shuffledQuestions[currentQuestionIndex]\<close> and, for a
  question that is not interactive, calls \<^verbatim>\<open>question.options.map\<close>; the value here
  says whether it gets through without a TypeError.
\<close>

definition displayCurrentQuestion :: "quiz_state \<Rightarrow> bool" where
  "displayCurrentQuestion s =
     (case array_at (shuffledQuestions s) (currentQuestionIndex s) of
        None \<Rightarrow> False
      | Some q \<Rightarrow> qtype q = JStr ''interactive'' \<or> options q \<noteq> None)"

definition startQuiz ::
  "(nat \<Rightarrow> rat) \<Rightarrow> quiz_question list \<Rightarrow> quiz_state \<Rightarrow> signal \<times> quiz_state" where
  "startQuiz random pool s =
     (let s' = initializeQuestions random pool
                 (s\<lparr>quizStarted := True, currentQuestionIndex := 0\<rparr>)
      in (if displayCurrentQuestion s' then Returned else Threw, s'))"

definition selectAnswer :: "nat \<Rightarrow> quiz_state \<Rightarrow> signal \<times> quiz_state" where
  "selectAnswer answerIndex s =
     (Returned,
      s\<lparr>userAnswers := array_set (userAnswers s) (currentQuestionIndex s) (JNum answerIndex)\<rparr>)"

text \<open>
  \<^verbatim>\<open>currentQuestionIndex < shuffledQuestions.length - 1\<close> is a comparison of
  numbers: with no question drawn the right-hand side is -1.
\<close>

definition nextQuestion :: "quiz_state \<Rightarrow> signal \<times> quiz_state" where
  "nextQuestion s =
     (if int (currentQuestionIndex s) < int (length (shuffledQuestions s)) - 1
      then (let s' = s\<lparr>currentQuestionIndex := currentQuestionIndex s + 1\<rparr>
            in (if displayCurrentQuestion s' then Returned else Threw, s'))
      else (Returned, s))"

definition previousQuestion :: "quiz_state \<Rightarrow> signal \<times> quiz_state" where
  "previousQuestion s =
     (if currentQuestionIndex s > 0
      then (let s' = s\<lparr>currentQuestionIndex := currentQuestionIndex s - 1\<rparr>
            in (if displayCurrentQuestion s' then Returned else Threw, s'))
      else (Returned, s))"

section \<open>Interactive checkers\<close>

text \<open>
  The checkers read the page: \<^verbatim>\<open>checkGitWorkflow\<close> and
  \<^verbatim>\<open>checkBranchPractice\<close> the text inputs, each a pair of the typed
  \<^verbatim>\<open>value\<close> and the expected \<^verbatim>\<open>dataset.answer\<close> (every input
  of the two components has the attribute \<^verbatim>\<open>data-answer\<close>);
  \<^verbatim>\<open>checkGitignoreBuilder\<close> the checkboxes. The loops are the bodies of the
  \<^verbatim>\<open>forEach\<close> calls; a TypeError in \<^verbatim>\<open>checkCommandEquivalence\<close> leaves the
  loop and the handler before the verdict is stored. (The timers that the handlers start
  on a correct verdict are not part of the model.)
\<close>

fun checkGitWorkflow_loop :: "(string \<times> string) list \<Rightarrow> bool \<Rightarrow> bool option" where
  "checkGitWorkflow_loop [] allCorrect = Some allCorrect"
| "checkGitWorkflow_loop ((val, answer) # inputs) allCorrect =
     (case checkCommandEquivalence (trim val) answer of
        None \<Rightarrow> None
      | Some isCorrect \<Rightarrow>
          checkGitWorkflow_loop inputs (if isCorrect then allCorrect else False))"

definition checkGitWorkflow :: "(string \<times> string) list \<Rightarrow> quiz_state \<Rightarrow> signal \<times> quiz_state" where
  "checkGitWorkflow inputs s =
     (case checkGitWorkflow_loop inputs True of
        None \<Rightarrow> (Threw, s)
      | Some allCorrect \<Rightarrow>
          (Returned,
           s\<lparr>userAnswers := array_set (userAnswers s) (currentQuestionIndex s)
                (if allCorrect then JStr ''correct'' else JStr ''incorrect'')\<rparr>))"

fun checkBranchPractice_loop :: "(string \<times> string) list \<Rightarrow> nat \<Rightarrow> nat option" where
  "checkBranchPractice_loop [] correctCount = Some correctCount"
| "checkBranchPractice_loop ((val, answer) # inputs) correctCount =
     (case checkCommandEquivalence (trim val) answer of
        None \<Rightarrow> None
      | Some isCorrect \<Rightarrow>
          checkBranchPractice_loop inputs (if isCorrect then correctCount + 1 else correctCount))"

definition checkBranchPractice :: "(string \<times> string) list \<Rightarrow> quiz_state \<Rightarrow> signal \<times> quiz_state" where
  "checkBranchPractice inputs s =
     (case checkBranchPractice_loop inputs 0 of
        None \<Rightarrow> (Threw, s)
      | Some correctCount \<Rightarrow>
          (let isCorrect = (correctCount \<ge> 2)
           in (Returned,
               s\<lparr>userAnswers := array_set (userAnswers s) (currentQuestionIndex s)
                    (if isCorrect then JStr ''correct'' else JStr ''incorrect'')\<rparr>)))"

text \<open>
  A checkbox of the ignore-builder: its \<^verbatim>\<open>checked\<close> state, its
  \<^verbatim>\<open>dataset.correct\<close> (\<open>JUndefined\<close> without the attribute) and its
  \<^verbatim>\<open>value\<close>.
\<close>

record checkbox =
  checked :: bool
  data_correct :: jsval
  cb_value :: string

fun checkGitignoreBuilder_loop :: "checkbox list \<Rightarrow> bool \<Rightarrow> bool" where
  "checkGitignoreBuilder_loop [] allCorrect = allCorrect"
| "checkGitignoreBuilder_loop (cb # checkboxes) allCorrect =
     (let isChecked = checked cb;
          shouldBeChecked = (data_correct cb = JStr ''true'')
      in checkGitignoreBuilder_loop checkboxes
           (if isChecked \<noteq> shouldBeChecked then False else allCorrect))"

definition checkGitignoreBuilder :: "checkbox list \<Rightarrow> quiz_state \<Rightarrow> signal \<times> quiz_state" where
  "checkGitignoreBuilder checkboxes s =
     (let allCorrect = checkGitignoreBuilder_loop checkboxes True
      in (Returned,
          s\<lparr>userAnswers := array_set (userAnswers s) (currentQuestionIndex s)
               (if allCorrect then JStr ''correct'' else JStr ''incorrect'')\<rparr>))"

text \<open>The checkboxes that \<^verbatim>\<open>createGitignoreBuilderComponent\<close> puts on the page.\<close>

definition gitignore_options :: "(string \<times> jsval) list" where
  "gitignore_options =
     [(''node_modules/'', JStr ''true''), (''.env'', JStr ''true''), (''*.log'', JStr ''true''),
      (''index.html'', JStr ''false''), (''dist/'', JStr ''true''),
      (''package.json'', JStr ''false''), (''.DS_Store'', JStr ''true''),
      (''src/'', JStr ''false'')]"

text \<open>The page after the learner has ticked the checkboxes whose value is in \<open>ticked\<close>.\<close>

definition gitignore_checkboxes :: "string list \<Rightarrow> checkbox list" where
  "gitignore_checkboxes ticked =
     map (\<lambda>(v, c). \<lparr>checked = (v \<in> set ticked), data_correct = c, cb_value = v\<rparr>)
       gitignore_options"

section \<open>Scoring and review (\<^verbatim>\<open>submitQuiz\<close>, \<^verbatim>\<open>showQuizResults\<close>)\<close>

text \<open>
  The \<^verbatim>\<open>forEach\<close> over \<^verbatim>\<open>userAnswers\<close> that counts the correct answers. For an
  answer without a drawn question, \<^verbatim>\<open>question\<close> is \<^verbatim>\<open>undefined\<close> and
  \<^verbatim>\<open>question.type\<close> raises the TypeError.
\<close>

fun count_correct :: "jsval list \<Rightarrow> nat \<Rightarrow> quiz_question list \<Rightarrow> nat \<Rightarrow> nat option" where
  "count_correct [] index qs correctAnswers = Some correctAnswers"
| "count_correct (answer # answers) index qs correctAnswers =
     (case array_at qs index of
        None \<Rightarrow> None
      | Some q \<Rightarrow>
          count_correct answers (Suc index) qs
            (if qtype q = JStr ''interactive''
             then (if answer = JStr ''correct'' then correctAnswers + 1 else correctAnswers)
             else (if answer = correct q then correctAnswers + 1 else correctAnswers)))"

text \<open>
  The numbers of JavaScript are IEEE 754 doubles (binary64): a quotient and a product
  are the exact result rounded to the nearest double, a tie going to the even
  significand. A positive double is \<open>m * 2 ^ e\<close> with \<open>2 ^ 52 \<le> m < 2 ^ 53\<close>, written
  here as the pair \<open>(m, e)\<close>; zero is \<open>(0, 0)\<close>. The operands are array lengths and
  counts, below \<open>2 ^ 32\<close>, so a quotient \<open>c / K\<close> is 0 or at least \<open>2 ^ - 32\<close> and its
  product with 100 is at most 100: neither overflow nor the subnormal range is met, and
  the rounding is written for the non-negative numbers of the normal range only.
\<close>

function bit_length :: "int \<Rightarrow> int" where
  "bit_length n = (if n \<le> 0 then 0 else 1 + bit_length (n div 2))"
  by pat_completeness auto
termination
  by (relation "measure nat") auto

text \<open>The fraction \<open>n / d\<close> divided by \<open>2 ^ e\<close>, again as a fraction.\<close>

definition scaled :: "int \<Rightarrow> int \<Rightarrow> int \<Rightarrow> int \<times> int" where
  "scaled n d e = (if 0 \<le> e then (n, d * 2 ^ nat e) else (n * 2 ^ nat (- e), d))"

text \<open>The integer nearest to \<open>n / d\<close> (\<open>d > 0\<close>), a tie going to the even one.\<close>

definition round_half_even :: "int \<Rightarrow> int \<Rightarrow> int" where
  "round_half_even n d =
     (let f = n div d; r = n mod d
      in if 2 * r < d then f
         else if d < 2 * r then f + 1
         else if even f then f else f + 1)"

text \<open>
  The double nearest to the fraction \<open>n / d\<close> (\<open>n \<ge> 0\<close>, \<open>d > 0\<close>). The binary exponent
  \<open>k\<close> of \<open>n / d\<close>, with \<open>2 ^ k \<le> n / d < 2 ^ (k + 1)\<close>, is the difference of the bit
  lengths of \<open>n\<close> and \<open>d\<close> or one less; the significand is \<open>n / d\<close> divided by
  \<open>2 ^ (k - 52)\<close> and rounded.
\<close>

definition binary64 :: "int \<Rightarrow> int \<Rightarrow> int \<times> int" where
  "binary64 n d =
     (if n = 0 then (0, 0)
      else (let k0 = bit_length n - bit_length d;
                (n0, d0) = scaled n d k0;
                k = (if d0 \<le> n0 then k0 else k0 - 1);
                e = k - 52;
                (n1, d1) = scaled n d e
            in (round_half_even n1 d1, e)))"

text \<open>
  \<^verbatim>\<open>Math.round(x)\<close> of the double \<open>x = m * 2 ^ e\<close>: the integer nearest to \<open>x\<close>, a
  tie going up, which is \<open>\<lfloor>x + 1/2\<rfloor>\<close>, taken exactly.
\<close>

definition math_round :: "int \<times> int \<Rightarrow> int" where
  "math_round x =
     (let (n, d) = scaled (fst x) 1 (- snd x)
      in (2 * n + d) div (2 * d))"

text \<open>
  \<^verbatim>\<open>Math.round((correctAnswers / shuffledQuestions.length) * 100)\<close>: the quotient
  is rounded to a double \<open>m * 2 ^ e\<close>, and the exact product \<open>100 * m * 2 ^ e\<close> is
  rounded to a double again.
\<close>

definition percentage_of :: "nat \<Rightarrow> nat \<Rightarrow> jsnum" where
  "percentage_of correctAnswers len =
     (if len = 0 then (if correctAnswers = 0 then NaN else PosInfinity)
      else (let (m, e) = binary64 (int correctAnswers) (int len);
                (n, d) = scaled (100 * m) 1 (- e)
            in Fin (math_round (binary64 n d))))"

text \<open>\<^verbatim>\<open>percentage >= 80\<close>: false for \<^verbatim>\<open>NaN\<close>.\<close>

fun ge_80 :: "jsnum \<Rightarrow> bool" where
  "ge_80 (Fin p) = (p \<ge> 80)"
| "ge_80 NaN = False"
| "ge_80 PosInfinity = True"

text \<open>The score computed by \<^verbatim>\<open>submitQuiz\<close>: correct answers, percentage, passed.\<close>

definition scoreQuiz :: "jsval list \<Rightarrow> quiz_question list \<Rightarrow> (nat \<times> jsnum \<times> bool) option" where
  "scoreQuiz answers qs =
     (case count_correct answers 0 qs 0 of
        None \<Rightarrow> None
      | Some correctAnswers \<Rightarrow>
          (let percentage = percentage_of correctAnswers (length qs);
               passed = ge_80 percentage
           in Some (correctAnswers, percentage, passed)))"

text \<open>
  The review of one question in \<^verbatim>\<open>showQuizResults\<close>: \<^verbatim>\<open>isCorrect\<close> is
  \<^verbatim>\<open>userAnswer === q.correct\<close> for every question. The template then reads
  \<^verbatim>\<open>q.options[userAnswer]\<close> when the answer is not \<^verbatim>\<open>null\<close> and
  \<^verbatim>\<open>q.options[q.correct]\<close> when \<^verbatim>\<open>isCorrect\<close> is false, a TypeError for a
  question without \<^verbatim>\<open>options\<close>.
\<close>

definition review_isCorrect :: "quiz_question \<Rightarrow> jsval \<Rightarrow> bool" where
  "review_isCorrect q userAnswer = (userAnswer = correct q)"

definition review_question :: "quiz_question \<Rightarrow> jsval \<Rightarrow> bool option" where
  "review_question q userAnswer =
     (let isCorrect = review_isCorrect q userAnswer
      in if options q = None \<and> (userAnswer \<noteq> JNull \<or> \<not> isCorrect) then None
         else Some isCorrect)"

fun review_loop :: "quiz_question list \<Rightarrow> nat \<Rightarrow> jsval list \<Rightarrow> bool list option" where
  "review_loop [] index answers = Some []"
| "review_loop (q # qs) index answers =
     (case review_question q (array_get answers index) of
        None \<Rightarrow> None
      | Some isCorrect \<Rightarrow>
          (case review_loop qs (Suc index) answers of
             None \<Rightarrow> None
           | Some flags \<Rightarrow> Some (isCorrect # flags)))"

definition showQuizResults :: "quiz_state \<Rightarrow> bool list option" where
  "showQuizResults s = review_loop (shuffledQuestions s) 0 (userAnswers s)"

definition submitQuiz :: "quiz_state \<Rightarrow> signal \<times> quiz_state" where
  "submitQuiz s =
     (let unansweredQuestions = length (filter (\<lambda>answer. answer = JNull) (userAnswers s))
      in if unansweredQuestions > 0 then (Alerted unansweredQuestions, s)
         else
           (let s1 = s\<lparr>quizCompleted := True\<rparr>
            in case scoreQuiz (userAnswers s1) (shuffledQuestions s1) of
                 None \<Rightarrow> (Threw, s1)
               | Some (correctAnswers, percentage, passed) \<Rightarrow>
                   (let s2 = s1\<lparr>finalQuizScore := percentage\<rparr>
                    in case showQuizResults s2 of
                         None \<Rightarrow> (Threw, s2)
                       | Some flags \<Rightarrow> (Shown correctAnswers percentage passed flags, s2))))"

definition retakeQuiz ::
  "(nat \<Rightarrow> rat) \<Rightarrow> quiz_question list \<Rightarrow> quiz_state \<Rightarrow> signal \<times> quiz_state" where
  "retakeQuiz random pool s =
     (Returned,
      initializeQuestions random pool (s\<lparr>currentQuestionIndex := 0, quizCompleted := False\<rparr>))"

section \<open>The question pool of the repository\<close>

definition quizQuestions :: "quiz_question list" where
  "quizQuestions = [
    \<lparr>question = ''What is the main difference between Git and GitHub?'',
     options = Some [
         ''Git is a web platform, GitHub is a command-line tool'',
         ''Git is for version control, GitHub is a cloud hosting platform for Git repositories'',
         ''They are the same thing with different names'',
         ''Git is for Windows, GitHub is for Mac''],
     correct = JNum 1, qsection = ''intro'',
     qtype = JUndefined, component = JUndefined\<rparr>,
    \<lparr>question = ''Which is the correct way to create a new repository on GitHub?'',
     options = Some [
         ''Click 'New repository' button and fill in the details'',
         ''Use 'git init' command on GitHub website'',
         ''Send an email to GitHub support'',
         ''Fork an existing repository''],
     correct = JNum 0, qsection = ''repositories'',
     qtype = JUndefined, component = JUndefined\<rparr>,
    \<lparr>question = ''Which command downloads a repository from GitHub to your local machine?'',
     options = Some [
         ''git download'',
         ''git copy'',
         ''git clone'',
         ''git pull''],
     correct = JNum 2, qsection = ''repositories'',
     qtype = JUndefined, component = JUndefined\<rparr>,
    \<lparr>question = ''Complete the Git workflow by typing the correct commands:'',
     options = None,
     correct = JUndefined, qsection = ''basics'',
     qtype = JStr ''interactive'', component = JStr ''git-workflow''\<rparr>,
    \<lparr>question = ''Which command uploads your local commits to GitHub?'',
     options = Some [
         ''git upload'',
         ''git send'',
         ''git push'',
         ''git sync''],
     correct = JNum 2, qsection = ''basics'',
     qtype = JUndefined, component = JUndefined\<rparr>,
    \<lparr>question = ''Which command downloads updates from GitHub to your local repository?'',
     options = Some [
         ''git download'',
         ''git fetch'',
         ''git pull'',
         ''git update''],
     correct = JNum 2, qsection = ''basics'',
     qtype = JUndefined, component = JUndefined\<rparr>,
    \<lparr>question = ''Practice branching commands by completing this scenario:'',
     options = None,
     correct = JUndefined, qsection = ''branching'',
     qtype = JStr ''interactive'', component = JStr ''branch-practice''\<rparr>,
    \<lparr>question = ''When merging branches, if Git can't automatically combine changes, what occurs?'',
     options = Some [
         ''The merge is cancelled'',
         ''Git picks the newer changes'',
         ''A merge conflict occurs that you must resolve manually'',
         ''Git deletes the conflicting files''],
     correct = JNum 2, qsection = ''branching'',
     qtype = JUndefined, component = JUndefined\<rparr>,
    \<lparr>question = ''What is a Pull Request in GitHub?'',
     options = Some [
         ''A request to download code'',
         ''A proposal to merge changes from one branch into another'',
         ''A way to delete branches'',
         ''A request for repository access''],
     correct = JNum 1, qsection = ''collaboration'',
     qtype = JUndefined, component = JUndefined\<rparr>,
    \<lparr>question = ''How do you comment on a specific line of code in a Pull Request?'',
     options = Some [
         ''Email the repository owner'',
         ''Click the line number in the 'Files changed' tab'',
         ''Create a new issue'',
         ''Use git comment command''],
     correct = JNum 1, qsection = ''collaboration'',
     qtype = JUndefined, component = JUndefined\<rparr>,
    \<lparr>question = ''What is forking a repository?'',
     options = Some [
         ''Deleting a repository'',
         ''Creating your own copy of someone else's repository'',
         ''Merging two repositories'',
         ''Renaming a repository''],
     correct = JNum 1, qsection = ''advanced'',
     qtype = JUndefined, component = JUndefined\<rparr>,
    \<lparr>question = ''After forking, how do you get the repository to your local machine?'',
     options = Some [
         ''git fork'',
         ''git download'',
         ''git clone [your-fork-url]'',
         ''Download ZIP file''],
     correct = JNum 2, qsection = ''advanced'',
     qtype = JUndefined, component = JUndefined\<rparr>,
    \<lparr>question = ''To keep your fork up-to-date with the original repository, you should:'',
     options = Some [
         ''Delete and re-fork the repository'',
         ''Add the original as 'upstream' remote and pull changes'',
         ''Email the original owner for updates'',
         ''Forks automatically stay synchronized''],
     correct = JNum 1, qsection = ''advanced'',
     qtype = JUndefined, component = JUndefined\<rparr>,
    \<lparr>question = ''Create a .gitignore file for a web project:'',
     options = None,
     correct = JUndefined, qsection = ''best-practices'',
     qtype = JStr ''interactive'', component = JStr ''gitignore-builder''\<rparr>,
    \<lparr>question = ''A README.md file should typically include:'',
     options = Some [
         ''Only the project name'',
         ''Project description, installation instructions, and usage examples'',
         ''Personal information about the developer'',
         ''Complete source code''],
     correct = JNum 1, qsection = ''best-practices'',
     qtype = JUndefined, component = JUndefined\<rparr>,
    \<lparr>question = ''Why should you add a license to your repository?'',
     options = Some [
         ''It's required by GitHub'',
         ''To specify how others can use, modify, and distribute your code'',
         ''To make the repository private'',
         ''To enable GitHub Actions''],
     correct = JNum 1, qsection = ''best-practices'',
     qtype = JUndefined, component = JUndefined\<rparr>,
    \<lparr>question = ''GitHub Issues are best used for:'',
     options = Some [
         ''Storing source code'',
         ''Tracking bugs, feature requests, and project tasks'',
         ''Hosting websites'',
         ''Managing user accounts''],
     correct = JNum 1, qsection = ''collaboration'',
     qtype = JUndefined, component = JUndefined\<rparr>,
    \<lparr>question = ''What should you NEVER commit to a public Git repository?'',
     options = Some [
         ''Source code files'',
         ''Documentation files'',
         ''Passwords, API keys, and sensitive information'',
         ''README files''],
     correct = JNum 2, qsection = ''best-practices'',
     qtype = JUndefined, component = JUndefined\<rparr>]"

section \<open>Example attempts\<close>

text \<open>
  An attempt in progress on the five multiple-choice questions 0, 1, 2, 4 and 5 of the
  pool (their correct options are 1, 0, 2, 2 and 2), and one on the interactive question 3
  alone, with the given answers.
\<close>

definition choice_attempt :: "jsval list \<Rightarrow> quiz_state" where
  "choice_attempt answers =
     \<lparr>currentQuestionIndex = 4, userAnswers = answers,
      quizStarted = True, quizCompleted = False, finalQuizScore = Fin 0,
      shuffledQuestions = map (\<lambda>index. quizQuestions ! index) [0, 1, 2, 4, 5],
      questionMapping = [0, 1, 2, 4, 5]\<rparr>"

definition interactive_attempt :: "jsval list \<Rightarrow> quiz_state" where
  "interactive_attempt answers =
     \<lparr>currentQuestionIndex = 0, userAnswers = answers,
      quizStarted = True, quizCompleted = False, finalQuizScore = Fin 0,
      shuffledQuestions = [quizQuestions ! 3],
      questionMapping = [3]\<rparr>"

section \<open>Properties of the command equivalence check\<close>

subsection \<open>The shape of a normalized command\<close>

lemma toLowerCase_char_not_upper:
  "\<not> (65 \<le> (of_char (toLowerCase_char c) :: nat) \<and> (of_char (toLowerCase_char c) :: nat) \<le> 90)"
  by (auto simp: toLowerCase_char_def Let_def)

lemma set_replace_white_space_runs:
  "set (replace_white_space_runs s) \<subseteq> insert (CHR '' '') {c \<in> set s. \<not> is_white_space c}"
proof (induction s rule: replace_white_space_runs.induct)
  case 1
  show ?case by simp
next
  case (2 c cs)
  have "set (dropWhile is_white_space cs) \<subseteq> set cs"
    by (rule set_dropWhileD [THEN subsetI])
  with 2 show ?case by (cases "is_white_space c") auto
qed

lemma set_trim: "set (trim s) \<subseteq> set s"
  by (auto simp: trim_def dest!: set_dropWhileD)

text \<open>
  A normalized command has no capital letter A-Z and no apostrophe, and its only white
  space is the space character.
\<close>

lemma normalize_cmd_chars:
  assumes "c \<in> set (normalize_cmd cmd)"
  shows "\<not> (65 \<le> (of_char c :: nat) \<and> (of_char c :: nat) \<le> 90)"
    and "c \<noteq> CHR 0x27"
    and "is_white_space c \<longrightarrow> c = CHR '' ''"
proof -
  from assms obtain d where d: "d \<in> set (replace_white_space_runs (trim (toLowerCase cmd)))"
    and c: "c = (if d = CHR 0x27 \<or> d = CHR 0x22 then CHR 0x22 else d)"
    by (auto simp: normalize_cmd_def replace_quotes_def)
  from d set_replace_white_space_runs
  have "d = CHR '' '' \<or> (d \<in> set (trim (toLowerCase cmd)) \<and> \<not> is_white_space d)"
    by blast
  then have d': "d = CHR '' '' \<or> (d \<in> set (toLowerCase cmd) \<and> \<not> is_white_space d)"
    using set_trim by blast
  then have low: "\<not> (65 \<le> (of_char d :: nat) \<and> (of_char d :: nat) \<le> 90)"
    using toLowerCase_char_not_upper by (fastforce simp: toLowerCase_def)
  show "\<not> (65 \<le> (of_char c :: nat) \<and> (of_char c :: nat) \<le> 90)"
    using low by (simp add: c)
  show "c \<noteq> CHR 0x27"
    by (simp add: c)
  show "is_white_space c \<longrightarrow> c = CHR '' ''"
    using d' by (auto simp: c is_white_space_def)
qed

lemma replace_white_space_runs_no_run:
  "Suc i < length (replace_white_space_runs s) \<Longrightarrow>
   \<not> (is_white_space (replace_white_space_runs s ! i) \<and>
      is_white_space (replace_white_space_runs s ! Suc i))"
proof (induction s arbitrary: i rule: replace_white_space_runs.induct)
  case 1
  then show ?case by simp
next
  case (2 c cs)
  show ?case
  proof (cases "is_white_space c")
    case True
    let ?r = "replace_white_space_runs (dropWhile is_white_space cs)"
    have hd: "\<not> is_white_space (?r ! 0)" if "?r \<noteq> []"
    proof (cases "dropWhile is_white_space cs")
      case Nil
      with that show ?thesis by simp
    next
      case (Cons d ds)
      then have "\<not> is_white_space d"
        using hd_dropWhile [of is_white_space cs] by simp
      then show ?thesis by (simp add: Cons)
    qed
    show ?thesis
    proof (cases i)
      case 0
      with 2 True hd show ?thesis by auto
    next
      case (Suc k)
      with 2 True show ?thesis by simp
    qed
  next
    case False
    show ?thesis
    proof (cases i)
      case 0
      with False show ?thesis by simp
    next
      case (Suc k)
      with 2 False show ?thesis by simp
    qed
  qed
qed

lemma trim_ends:
  assumes "trim s \<noteq> []"
  shows "\<not> is_white_space (hd (trim s))" and "\<not> is_white_space (last (trim s))"
proof -
  let ?t = "dropWhile is_white_space s"
  let ?u = "dropWhile is_white_space (rev ?t)"
  from assms have u: "?u \<noteq> []" by (simp add: trim_def)
  then have t: "?t \<noteq> []" by (cases "?t") simp_all
  have "last (trim s) = hd ?u"
    using u by (simp add: trim_def last_rev)
  then show "\<not> is_white_space (last (trim s))"
    using hd_dropWhile [OF u] by simp
  have "hd (trim s) = last ?u"
    using u by (simp add: trim_def hd_rev)
  also have "\<dots> = last (rev ?t)"
  proof -
    have "rev ?t = takeWhile is_white_space (rev ?t) @ ?u" by simp
    then show ?thesis using u by (metis last_appendR)
  qed
  also have "\<dots> = hd ?t"
    using t by (simp add: last_rev)
  finally show "\<not> is_white_space (hd (trim s))"
    using hd_dropWhile [OF t] by simp
qed

lemma replace_white_space_runs_Nil: "replace_white_space_runs s = [] \<longleftrightarrow> s = []"
  by (cases s) simp_all

lemma replace_white_space_runs_hd:
  "s \<noteq> [] \<Longrightarrow> \<not> is_white_space (hd s) \<Longrightarrow>
   hd (replace_white_space_runs s) = hd s"
  by (cases s) simp_all

lemma replace_white_space_runs_last:
  "s \<noteq> [] \<Longrightarrow> \<not> is_white_space (last s) \<Longrightarrow>
   last (replace_white_space_runs s) = last s"
proof (induction s rule: replace_white_space_runs.induct)
  case 1
  then show ?case by simp
next
  case (2 c cs)
  show ?case
  proof (cases "is_white_space c")
    case True
    let ?d = "dropWhile is_white_space cs"
    from 2 True have cs: "cs \<noteq> []" by auto
    have "cs = takeWhile is_white_space cs @ ?d" by simp
    moreover have d: "?d \<noteq> []"
    proof
      assume "?d = []"
      then have "\<forall>x \<in> set cs. is_white_space x" by (simp add: dropWhile_eq_Nil_conv)
      with cs have "is_white_space (last cs)" by simp
      with 2 cs show False by simp
    qed
    ultimately have l: "last cs = last ?d" by (metis last_appendR)
    from d have nr: "replace_white_space_runs ?d \<noteq> []"
      by (simp add: replace_white_space_runs_Nil)
    from 2 have nl: "\<not> is_white_space (last ?d)"
      using cs l by simp
    have "last (replace_white_space_runs ?d) = last ?d"
      using "2.IH"(1) [OF True d nl] .
    with True nr l cs show ?thesis by simp
  next
    case False
    with 2 show ?thesis
      by (cases cs) (simp_all add: replace_white_space_runs_Nil)
  qed
qed

text \<open>
  A normalized command neither starts nor ends with white space and has no two white
  space characters in a row.
\<close>

lemma normalize_cmd_spacing:
  shows "normalize_cmd cmd \<noteq> [] \<Longrightarrow>
           \<not> is_white_space (hd (normalize_cmd cmd)) \<and>
           \<not> is_white_space (last (normalize_cmd cmd))"
    and "Suc i < length (normalize_cmd cmd) \<Longrightarrow>
           \<not> (is_white_space (normalize_cmd cmd ! i) \<and>
              is_white_space (normalize_cmd cmd ! Suc i))"
proof -
  let ?t = "trim (toLowerCase cmd)"
  let ?r = "replace_white_space_runs ?t"
  let ?q = "\<lambda>c. if c = CHR 0x27 \<or> c = CHR 0x22 then CHR 0x22 else c"
  have q: "is_white_space (?q c) = is_white_space c" for c
    by (simp add: is_white_space_def)
  have n: "normalize_cmd cmd = map ?q ?r"
    by (simp add: normalize_cmd_def replace_quotes_def)
  show "\<not> is_white_space (hd (normalize_cmd cmd)) \<and>
        \<not> is_white_space (last (normalize_cmd cmd))"
    if "normalize_cmd cmd \<noteq> []"
  proof -
    from that have r: "?r \<noteq> []" by (simp add: n)
    then have t: "?t \<noteq> []" by (simp add: replace_white_space_runs_Nil)
    note e = trim_ends [OF t]
    have "hd (normalize_cmd cmd) = ?q (hd ?t)"
      using r replace_white_space_runs_hd [OF t e(1)] by (simp add: n hd_map)
    moreover have "last (normalize_cmd cmd) = ?q (last ?t)"
      using r replace_white_space_runs_last [OF t e(2)] by (simp add: n last_map)
    ultimately show ?thesis
      using e by (simp only: q) simp
  qed
  show "\<not> (is_white_space (normalize_cmd cmd ! i) \<and>
           is_white_space (normalize_cmd cmd ! Suc i))"
    if "Suc i < length (normalize_cmd cmd)"
  proof -
    from that have l: "Suc i < length ?r" by (simp add: n)
    then have "normalize_cmd cmd ! i = ?q (?r ! i)"
      and "normalize_cmd cmd ! Suc i = ?q (?r ! Suc i)"
      by (simp_all add: n)
    then show ?thesis
      using replace_white_space_runs_no_run [OF l] by (simp only: q) simp
  qed
qed

subsection \<open>The check\<close>




section \<open>Scoring and submission\<close>

lemma count_correct_zip:
  "index + length answers \<le> length qs \<Longrightarrow>
   count_correct answers index qs acc =
     Some (acc + length (filter (\<lambda>(a, q). if qtype q = JStr ''interactive''
                                               then a = JStr ''correct'' else a = correct q)
                          (zip answers (drop index qs))))"
proof (induction answers arbitrary: index acc)
  case Nil
  then show ?case by simp
next
  case (Cons a answers)
  from Cons.prems have lt: "index < length qs" by simp
  then have d: "drop index qs = qs ! index # drop (Suc index) qs"
    by (simp add: Cons_nth_drop_Suc)
  from Cons.prems have "Suc index + length answers \<le> length qs" by simp
  note IH = Cons.IH [OF this]
  show ?case
    using lt by (simp add: array_at_def d IH)
qed

lemma filter_null_empty:
  "JNull \<notin> set xs \<Longrightarrow> filter (\<lambda>answer. answer = JNull) xs = []"
  by (induction xs) auto

text \<open>
  Up to 20 questions the doubles give the integer \<open>(200 * c + K) div (2 * K)\<close>, for every
  count \<open>c \<le> K\<close>: all 230 cases are computed.
\<close>

lemma percentage_of_table_a:
  "\<forall>K \<in> set [1..<9]. \<forall>c \<in> set [0..<Suc K].
     percentage_of c K = Fin ((200 * int c + int K) div (2 * int K))"
  by code_simp

lemma percentage_of_table_b:
  "\<forall>K \<in> set [9..<14]. \<forall>c \<in> set [0..<Suc K].
     percentage_of c K = Fin ((200 * int c + int K) div (2 * int K))"
  by code_simp

lemma percentage_of_table_c:
  "\<forall>K \<in> set [14..<18]. \<forall>c \<in> set [0..<Suc K].
     percentage_of c K = Fin ((200 * int c + int K) div (2 * int K))"
  by code_simp

lemma percentage_of_table_d:
  "\<forall>K \<in> set [18..<21]. \<forall>c \<in> set [0..<Suc K].
     percentage_of c K = Fin ((200 * int c + int K) div (2 * int K))"
  by code_simp

lemma percentage_of_table:
  "\<forall>K \<in> set [1..<21]. \<forall>c \<in> set [0..<Suc K].
     percentage_of c K = Fin ((200 * int c + int K) div (2 * int K))"
proof (intro ballI)
  fix K c
  assume K: "K \<in> set [1..<21]" and c: "c \<in> set [0..<Suc K]"
  from K have "K \<in> set [1..<9] \<or> K \<in> set [9..<14] \<or> K \<in> set [14..<18] \<or> K \<in> set [18..<21]"
    by (simp only: set_upt atLeastLessThan_iff) arith
  with c show "percentage_of c K = Fin ((200 * int c + int K) div (2 * int K))"
    using percentage_of_table_a percentage_of_table_b percentage_of_table_c
      percentage_of_table_d by blast
qed

lemma percentage_of_upto_20:
  assumes "0 < K" and "K \<le> 20" and "c \<le> K"
  shows "percentage_of c K = Fin ((200 * int c + int K) div (2 * int K))"
proof -
  from assms have "K \<in> set [1..<21]" and "c \<in> set [0..<Suc K]" by auto
  with percentage_of_table show ?thesis by blast
qed

text \<open>That integer is the nearest one to \<open>100 * c / K\<close>, a tie going up.\<close>

lemma half_up_bounds:
  assumes "0 < K" and "p = (200 * int c + int K) div (2 * int K)"
  shows "of_int p - 1 / 2 \<le> (100 * of_nat c / of_nat K :: rat)"
    and "(100 * of_nat c / of_nat K :: rat) < of_int p + 1 / 2"
proof -
  let ?x = "100 * of_nat c / of_nat K :: rat"
  have "?x + 1 / 2 = of_int (200 * int c + int K) / of_int (2 * int K)"
    using assms(1) by (simp add: field_simps)
  then have "\<lfloor>?x + 1 / 2\<rfloor> = (200 * int c + int K) div (2 * int K)"
    by (simp only: floor_divide_of_int_eq)
  then have p: "p = \<lfloor>?x + 1 / 2\<rfloor>" using assms(2) by simp
  have "of_int \<lfloor>?x + 1 / 2\<rfloor> \<le> ?x + 1 / 2" by (rule of_int_floor_le)
  then show "of_int p - 1 / 2 \<le> ?x" unfolding p by linarith
  have "?x + 1 / 2 < of_int \<lfloor>?x + 1 / 2\<rfloor> + 1" by linarith
  then show "?x < of_int p + 1 / 2" unfolding p by linarith
qed

text \<open>
  The bound of 20 questions is needed: with 23 of 40 right, \<open>100 * c / K\<close> is 57.5,
  while the product of doubles is just below and \<^verbatim>\<open>Math.round\<close> gives 57.
\<close>

lemma percentage_of_23_of_40: "percentage_of 23 40 = Fin 57"
  by code_simp

text \<open>\<^verbatim>\<open>initializeQuestions\<close> never draws more than 20 questions.\<close>

lemma initializeQuestions_at_most_20:
  "length (shuffledQuestions (initializeQuestions random pool s)) \<le> 20"
  by (simp add: initializeQuestions_def Let_def)

text \<open>
  C1. On an attempt of \<open>K\<close> drawn questions, \<open>0 < K \<le> 20\<close>, whose answer array has one
  answered slot per question, \<^verbatim>\<open>submitQuiz\<close> counts the slots \<open>i\<close> where, for an
  interactive question, the stored verdict is \<^verbatim>\<open>'correct'\<close> and, for a choice
  question, the stored answer equals the correct option index; the percentage \<open>p\<close> is
  the integer nearest to \<open>100 * c / K\<close>, a tie going up; it is stored as the final
  score, and the pass flag is \<open>p \<ge> 80\<close>. (The handler may still end in the TypeError of
  the review, after the score is stored.)
\<close>

theorem submitQuiz_scores:
  assumes len: "length (userAnswers s) = length (shuffledQuestions s)"
      and ne: "shuffledQuestions s \<noteq> []"
      and le20: "length (shuffledQuestions s) \<le> 20"
      and full: "JNull \<notin> set (userAnswers s)"
      and K: "K = length (shuffledQuestions s)"
      and c: "c = card {i. i < K \<and>
                   (if qtype (shuffledQuestions s ! i) = JStr ''interactive''
                    then userAnswers s ! i = JStr ''correct''
                    else userAnswers s ! i = correct (shuffledQuestions s ! i))}"
  shows "\<exists>p. scoreQuiz (userAnswers s) (shuffledQuestions s) = Some (c, Fin p, p \<ge> 80) \<and>
             of_int p - 1 / 2 \<le> (100 * of_nat c / of_nat K :: rat) \<and>
             (100 * of_nat c / of_nat K :: rat) < of_int p + 1 / 2 \<and>
             snd (submitQuiz s) = s\<lparr>quizCompleted := True, finalQuizScore := Fin p\<rparr> \<and>
             (fst (submitQuiz s) = Threw \<or>
              (\<exists>flags. fst (submitQuiz s) = Shown c (Fin p) (p \<ge> 80) flags))"
proof -
  let ?rule = "\<lambda>(a, q). if qtype q = JStr ''interactive''
                          then a = JStr ''correct'' else a = correct q"
  let ?zs = "zip (userAnswers s) (shuffledQuestions s)"
  let ?S = "{i. i < K \<and>
                   (if qtype (shuffledQuestions s ! i) = JStr ''interactive''
                    then userAnswers s ! i = JStr ''correct''
                    else userAnswers s ! i = correct (shuffledQuestions s ! i))}"
  have cc: "count_correct (userAnswers s) 0 (shuffledQuestions s) 0
              = Some (length (filter ?rule ?zs))"
    using count_correct_zip [of 0 "userAnswers s" "shuffledQuestions s" 0] len by simp
  have "length (filter ?rule ?zs) = card {i. i < length ?zs \<and> ?rule (?zs ! i)}"
    by (rule length_filter_conv_card)
  also have "{i. i < length ?zs \<and> ?rule (?zs ! i)} = ?S"
    using len K by auto
  finally have cnt: "length (filter ?rule ?zs) = c" using c by simp
  have Kpos: "0 < K" using ne K by simp
  have K20: "K \<le> 20" using le20 K by simp
  have "card ?S \<le> card {..<K}"
    by (rule card_mono) auto
  then have cK: "c \<le> K" using c by simp
  define p where "p = (200 * int c + int K) div (2 * int K)"
  have pc: "percentage_of c (length (shuffledQuestions s)) = Fin p"
    using percentage_of_upto_20 [OF Kpos K20 cK] K by (simp add: p_def)
  have sc: "scoreQuiz (userAnswers s) (shuffledQuestions s) = Some (c, Fin p, p \<ge> 80)"
    by (simp add: scoreQuiz_def cc cnt pc)
  note b = half_up_bounds [OF Kpos p_def]
  have un: "filter (\<lambda>answer. answer = JNull) (userAnswers s) = []"
    using full by (rule filter_null_empty)
  have st: "snd (submitQuiz s) = s\<lparr>quizCompleted := True, finalQuizScore := Fin p\<rparr>"
    by (simp add: submitQuiz_def Let_def un sc split: option.splits)
  have sg: "fst (submitQuiz s) = Threw \<or>
              (\<exists>flags. fst (submitQuiz s) = Shown c (Fin p) (p \<ge> 80) flags)"
    by (simp add: submitQuiz_def Let_def un sc split: option.splits)
  from sc b st sg show ?thesis by blast
qed

text \<open>The example of five questions with four correct answers: 80 percent, passed.\<close>

theorem submitQuiz_scores_witness:
  "let s = choice_attempt [JNum 1, JNum 0, JNum 2, JNum 2, JNum 0]
   in length (userAnswers s) = length (shuffledQuestions s) \<and>
      shuffledQuestions s \<noteq> [] \<and> length (shuffledQuestions s) \<le> 20 \<and>
      JNull \<notin> set (userAnswers s) \<and>
      scoreQuiz (userAnswers s) (shuffledQuestions s) = Some (4, Fin 80, True) \<and>
      snd (submitQuiz s) = s\<lparr>quizCompleted := True, finalQuizScore := Fin 80\<rparr>"
proof -
  define s where "s = choice_attempt [JNum 1, JNum 0, JNum 2, JNum 2, JNum 0]"
  have h1: "length (userAnswers s) = length (shuffledQuestions s)"
    by (simp add: s_def choice_attempt_def)
  have h2: "shuffledQuestions s \<noteq> []"
    by (simp add: s_def choice_attempt_def)
  have h3: "length (shuffledQuestions s) \<le> 20"
    by (simp add: s_def choice_attempt_def)
  have h4: "JNull \<notin> set (userAnswers s)"
    by (simp add: s_def choice_attempt_def)
  have sc: "scoreQuiz (userAnswers s) (shuffledQuestions s) = Some (4, Fin 80, True)"
    unfolding s_def by code_simp
  from submitQuiz_scores [OF h1 h2 h3 h4 refl refl] obtain p where
    p: "scoreQuiz (userAnswers s) (shuffledQuestions s)
          = Some (card {i. i < length (shuffledQuestions s) \<and>
                   (if qtype (shuffledQuestions s ! i) = JStr ''interactive''
                    then userAnswers s ! i = JStr ''correct''
                    else userAnswers s ! i = correct (shuffledQuestions s ! i))}, Fin p, p \<ge> 80)"
    and st: "snd (submitQuiz s) = s\<lparr>quizCompleted := True, finalQuizScore := Fin p\<rparr>"
    by blast
  from p sc have "p = 80" by simp
  with st h1 h2 h3 h4 sc show ?thesis unfolding s_def [symmetric] by (simp add: Let_def)
qed

text \<open>
  C2. With an unanswered slot in the answer array, \<^verbatim>\<open>submitQuiz\<close> shows the alert
  with the number of unanswered slots (which is positive) and returns: nothing is scored
  and the state is the one it was called in.
\<close>

theorem submitQuiz_incomplete:
  assumes "JNull \<in> set (userAnswers s)"
  shows "submitQuiz s = (Alerted (length (filter (\<lambda>answer. answer = JNull) (userAnswers s))), s) \<and>
         0 < length (filter (\<lambda>answer. answer = JNull) (userAnswers s))"
proof -
  from assms have "filter (\<lambda>answer. answer = JNull) (userAnswers s) \<noteq> []"
    by (simp add: filter_empty_conv)
  then have "0 < length (filter (\<lambda>answer. answer = JNull) (userAnswers s))" by simp
  then show ?thesis by (simp add: submitQuiz_def)
qed

text \<open>Two of five slots unanswered: the alert reports 2 and the state is unchanged.\<close>

theorem submitQuiz_incomplete_witness:
  "let s = choice_attempt [JNum 1, JNull, JNum 2, JNull, JNum 0]
   in JNull \<in> set (userAnswers s) \<and> submitQuiz s = (Alerted 2, s)"
proof -
  define s where "s = choice_attempt [JNum 1, JNull, JNum 2, JNull, JNum 0]"
  have h: "JNull \<in> set (userAnswers s)" by (simp add: s_def choice_attempt_def)
  have n: "length (filter (\<lambda>answer. answer = JNull) (userAnswers s)) = 2"
    by (simp add: s_def choice_attempt_def)
  from submitQuiz_incomplete [OF h] n h show ?thesis
    unfolding s_def [symmetric] by (simp add: Let_def)
qed

section \<open>Sampling\<close>

lemma draw_le:
  assumes "0 \<le> r" "r < (1::rat)"
  shows "nat \<lfloor>r * of_nat (i + 1)\<rfloor> \<le> i"
proof -
  have "r * of_nat (i + 1) < of_nat (i + 1)"
    using assms by (simp add: mult_less_cancel_right1)
  then have "\<lfloor>r * of_nat (i + 1)\<rfloor> < int (i + 1)"
    by (simp add: floor_less_iff)
  then show ?thesis by simp
qed

lemma shuffle_loop_length: "length (shuffle_loop k random xs) = length xs"
  by (induction k arbitrary: random xs) (simp_all add: Let_def)

lemma shuffle_loop_mset:
  assumes "\<forall>n. 0 \<le> random n \<and> random n < 1"
      and "k < length xs \<or> k = 0"
  shows "mset (shuffle_loop k random xs) = mset xs"
  using assms
proof (induction k arbitrary: random xs)
  case 0
  then show ?case by simp
next
  case (Suc k)
  let ?j = "nat \<lfloor>random 0 * of_nat (Suc k + 1)\<rfloor>"
  let ?ys = "xs[Suc k := xs ! ?j, ?j := xs ! Suc k]"
  from Suc.prems have i: "Suc k < length xs" by simp
  have j: "?j \<le> Suc k" using Suc.prems(1) by (intro draw_le) auto
  have sw: "mset ?ys = mset xs" using i j by (simp add: mset_swap)
  have r: "\<forall>n. 0 \<le> random (Suc n) \<and> random (Suc n) < 1" using Suc.prems(1) by simp
  have "mset (shuffle_loop k (\<lambda>n. random (Suc n)) ?ys) = mset ?ys"
    using i by (intro Suc.IH [OF r]) simp
  with sw show ?case by (simp add: Let_def)
qed

lemma shuffleArray_mset:
  "\<forall>n. 0 \<le> random n \<and> random n < 1 \<Longrightarrow> mset (shuffleArray random xs) = mset xs"
  unfolding shuffleArray_def by (rule shuffle_loop_mset) (auto simp: less_Suc_eq_0_disj)

lemma shuffleArray_length: "length (shuffleArray random xs) = length xs"
  by (simp add: shuffleArray_def shuffle_loop_length)

lemma fisher_yates_cong:
  "(\<And>i. 1 \<le> i \<Longrightarrow> i \<le> k \<Longrightarrow> f i = g i) \<Longrightarrow> fisher_yates k f xs = fisher_yates k g xs"
  by (induction k arbitrary: xs) simp_all

lemma shuffle_loop_fisher_yates:
  "shuffle_loop k random xs =
     fisher_yates k (\<lambda>i. nat \<lfloor>random (k - i) * of_nat (i + 1)\<rfloor>) xs"
proof (induction k arbitrary: random xs)
  case 0
  show ?case by simp
next
  case (Suc k)
  let ?j = "nat \<lfloor>random 0 * of_nat (Suc k + 1)\<rfloor>"
  let ?ys = "xs[Suc k := xs ! ?j, ?j := xs ! Suc k]"
  have "shuffle_loop (Suc k) random xs = shuffle_loop k (\<lambda>n. random (Suc n)) ?ys"
    by (simp add: Let_def)
  also have "\<dots> = fisher_yates k (\<lambda>i. nat \<lfloor>random (Suc (k - i)) * of_nat (i + 1)\<rfloor>) ?ys"
    by (rule Suc.IH)
  also have "\<dots> = fisher_yates k (\<lambda>i. nat \<lfloor>random (Suc k - i) * of_nat (i + 1)\<rfloor>) ?ys"
    by (rule fisher_yates_cong) (simp add: Suc_diff_le)
  also have "\<dots> = fisher_yates (Suc k) (\<lambda>i. nat \<lfloor>random (Suc k - i) * of_nat (i + 1)\<rfloor>) xs"
    by simp
  finally show ?case .
qed

text \<open>
  Any choice of swap partners at an index at most \<open>i\<close> permutes the list, so the result
  does not depend on how the product \<^verbatim>\<open>Math.random() * (i + 1)\<close> is rounded.
\<close>

lemma fisher_yates_mset:
  assumes "\<forall>i. pick i \<le> i" and "k < length xs \<or> k = 0"
  shows "mset (fisher_yates k pick xs) = mset xs"
  using assms(2)
proof (induction k arbitrary: xs)
  case 0
  show ?case by simp
next
  case (Suc k)
  let ?ys = "xs[Suc k := xs ! pick (Suc k), pick (Suc k) := xs ! Suc k]"
  from Suc.prems have i: "Suc k < length xs" by simp
  from assms(1) have j: "pick (Suc k) \<le> Suc k" by blast
  have sw: "mset ?ys = mset xs" using i j by (simp add: mset_swap)
  have "mset (fisher_yates k pick ?ys) = mset ?ys"
    using i by (intro Suc.IH) simp
  with sw show ?case by simp
qed

text \<open>
  C3. For a pool of at least 20 questions and any draws in \<open>[0, 1)\<close>,
  \<^verbatim>\<open>initializeQuestions\<close> shuffles the pool indices by Fisher-Yates (each swap
  partner \<open>pick i\<close> is at most \<open>i\<close>), which permutes them, and keeps the first 20:
  twenty pairwise distinct indices of the pool, the questions at those indices, and an
  answer array of 20 unanswered slots.
\<close>

theorem initializeQuestions_sample:
  assumes N: "20 \<le> length pool"
      and rnd: "\<forall>n. 0 \<le> random n \<and> random n < 1"
      and s': "s' = initializeQuestions random pool s"
      and perm: "permutation = shuffleArray random [0..<length pool]"
      and ch: "pick = (\<lambda>i. nat \<lfloor>random (length pool - 1 - i) * of_nat (i + 1)\<rfloor>)"
  shows "permutation = fisher_yates (length pool - 1) pick [0..<length pool] \<and>
         (\<forall>i. pick i \<le> i) \<and>
         mset permutation = mset [0..<length pool] \<and>
         questionMapping s' = take 20 permutation \<and>
         length (questionMapping s') = 20 \<and>
         distinct (questionMapping s') \<and>
         set (questionMapping s') \<subseteq> {..<length pool} \<and>
         shuffledQuestions s' = map (\<lambda>index. pool ! index) (questionMapping s') \<and>
         length (shuffledQuestions s') = 20 \<and>
         set (shuffledQuestions s') \<subseteq> set pool \<and>
         userAnswers s' = replicate 20 JNull"
proof -
  have fy: "permutation = fisher_yates (length pool - 1) pick [0..<length pool]"
    by (simp add: perm ch shuffleArray_def shuffle_loop_fisher_yates)
  have le: "\<forall>i. pick i \<le> i"
    unfolding ch using rnd draw_le by blast
  have ms: "mset permutation = mset [0..<length pool]"
    unfolding perm using rnd by (rule shuffleArray_mset)
  have qm: "questionMapping s' = take 20 permutation"
    by (simp add: s' initializeQuestions_def perm Let_def)
  have lp: "length permutation = length pool"
    by (simp add: perm shuffleArray_length)
  have len: "length (questionMapping s') = 20"
    using N by (simp add: qm lp)
  have "distinct permutation"
    using mset_eq_imp_distinct_iff [OF ms] by simp
  then have di: "distinct (questionMapping s')"
    by (simp add: qm)
  have "set permutation = {..<length pool}"
    using mset_eq_setD [OF ms] by (simp add: lessThan_atLeast0)
  then have sub: "set (questionMapping s') \<subseteq> {..<length pool}"
    using set_take_subset [of 20 permutation] by (simp add: qm)
  have sq: "shuffledQuestions s' = map (\<lambda>index. pool ! index) (questionMapping s')"
    by (simp add: s' initializeQuestions_def perm Let_def)
  have lsq: "length (shuffledQuestions s') = 20"
    by (simp add: sq len)
  have mem: "set (shuffledQuestions s') \<subseteq> set pool"
    using sub by (auto simp: sq)
  have ua: "userAnswers s' = replicate 20 JNull"
    by (simp add: s' initializeQuestions_def Let_def)
  from fy le ms qm len di sub sq lsq mem ua show ?thesis by blast
qed

text \<open>A pool of 36 questions (the repository's pool twice), every draw \<open>1/2\<close>.\<close>

theorem initializeQuestions_sample_witness:
  "20 \<le> length (quizQuestions @ quizQuestions) \<and>
   (\<forall>n::nat. (0::rat) \<le> 1 / 2 \<and> (1 / 2 :: rat) < 1) \<and>
   (let s' = initializeQuestions (\<lambda>n. 1 / 2) (quizQuestions @ quizQuestions)
               (initial_state (quizQuestions @ quizQuestions))
    in length (questionMapping s') = 20 \<and> distinct (questionMapping s') \<and>
       set (questionMapping s') \<subseteq> {..<length (quizQuestions @ quizQuestions)} \<and>
       length (shuffledQuestions s') = 20 \<and>
       userAnswers s' = replicate 20 JNull)"
proof -
  define s' where "s' = initializeQuestions (\<lambda>n. 1 / 2) (quizQuestions @ quizQuestions)
               (initial_state (quizQuestions @ quizQuestions))"
  have h1: "20 \<le> length (quizQuestions @ quizQuestions)"
    by (simp add: quizQuestions_def)
  have h2: "\<forall>n. (0::rat) \<le> (\<lambda>n. 1 / 2) n \<and> (\<lambda>n. 1 / 2 :: rat) n < 1"
    by simp
  have h2': "\<forall>n::nat. (0::rat) \<le> 1 / 2 \<and> (1 / 2 :: rat) < 1"
    by simp
  note t = initializeQuestions_sample [OF h1 h2 s'_def refl refl]
  from t have a: "length (questionMapping s') = 20" by blast
  from t have b: "distinct (questionMapping s')" by blast
  from t have c: "set (questionMapping s') \<subseteq> {..<length (quizQuestions @ quizQuestions)}"
    by blast
  from t have d: "length (shuffledQuestions s') = 20" by blast
  from t have e: "userAnswers s' = replicate 20 JNull" by blast
  from h1 h2' a b c d e show ?thesis
    unfolding Let_def s'_def [symmetric] by blast
qed

text \<open>
  C10 (as amended). A pool of fewer than 20 questions is not refused:
  \<^verbatim>\<open>initializeQuestions\<close> draws every question of the pool exactly once, in the
  shuffled order.
\<close>

theorem initializeQuestions_small_pool:
  assumes N: "length pool < 20"
      and rnd: "\<forall>n. 0 \<le> random n \<and> random n < 1"
      and s': "s' = initializeQuestions random pool s"
  shows "mset (questionMapping s') = mset [0..<length pool] \<and>
         shuffledQuestions s' = map (\<lambda>index. pool ! index) (questionMapping s') \<and>
         mset (shuffledQuestions s') = mset pool"
proof -
  have lp: "length (shuffleArray random [0..<length pool]) = length pool"
    by (simp add: shuffleArray_length)
  have qm: "questionMapping s' = shuffleArray random [0..<length pool]"
    using N lp by (simp add: s' initializeQuestions_def Let_def)
  have ms: "mset (questionMapping s') = mset [0..<length pool]"
    unfolding qm using rnd by (rule shuffleArray_mset)
  have sq: "shuffledQuestions s' = map (\<lambda>index. pool ! index) (questionMapping s')"
    by (simp add: s' initializeQuestions_def Let_def)
  have "mset (shuffledQuestions s') = image_mset (\<lambda>index. pool ! index) (mset (questionMapping s'))"
    by (simp add: sq)
  also have "\<dots> = mset (map (\<lambda>index. pool ! index) [0..<length pool])"
    by (simp add: ms)
  also have "\<dots> = mset pool"
    by (simp add: map_nth)
  finally show ?thesis using ms sq by blast
qed

text \<open>The repository's pool of 18 questions, every draw 0.\<close>

theorem initializeQuestions_small_pool_witness:
  "length quizQuestions < 20 \<and> (\<forall>n::nat. (0::rat) \<le> 0 \<and> (0::rat) < 1) \<and>
   mset (shuffledQuestions
          (initializeQuestions (\<lambda>n. 0) quizQuestions (initial_state quizQuestions)))
     = mset quizQuestions"
proof -
  have h1: "length quizQuestions < 20"
    by (simp add: quizQuestions_def)
  have h2: "\<forall>n. (0::rat) \<le> (\<lambda>n. 0) n \<and> (\<lambda>n. 0 :: rat) n < 1"
    by simp
  have h2': "\<forall>n::nat. (0::rat) \<le> 0 \<and> (0::rat) < 1"
    by simp
  from initializeQuestions_small_pool [OF h1 h2 refl, of "initial_state quizQuestions"]
  have "mset (shuffledQuestions
          (initializeQuestions (\<lambda>n. 0) quizQuestions (initial_state quizQuestions)))
     = mset quizQuestions"
    by blast
  with h1 h2' show ?thesis by blast
qed

text \<open>
  C10 (as stated) fails on the repository's own pool: with 18 questions, starting the
  quiz returns normally with 18 drawn questions, and no error condition is raised.
\<close>

theorem startQuiz_small_pool_counterexample:
  "length quizQuestions = 18 \<and>
   fst (startQuiz (\<lambda>n. 0) quizQuestions (initial_state quizQuestions)) = Returned \<and>
   questionMapping (snd (startQuiz (\<lambda>n. 0) quizQuestions (initial_state quizQuestions)))
     = [1, 2, 3, 4, 5, 6, 7, 8, 9, 10, 11, 12, 13, 14, 15, 16, 17, 0]"
  by code_simp

text \<open>
  C8 fails on the repository's own pool: whatever the draws, starting the quiz leaves 18
  drawn questions beside an answer array of 20 slots.
\<close>

theorem startQuiz_slots_mismatch:
  "length (shuffledQuestions (snd (startQuiz random quizQuestions s))) = 18 \<and>
   length (userAnswers (snd (startQuiz random quizQuestions s))) = 20"
proof -
  have "length quizQuestions = 18" by (simp add: quizQuestions_def)
  then show ?thesis
    by (simp add: startQuiz_def initializeQuestions_def Let_def shuffleArray_length)
qed

section \<open>Navigation\<close>

text \<open>
  C9. With the cursor on a drawn question, \<^verbatim>\<open>nextQuestion\<close> moves it up by one
  unless it is on the last question and \<^verbatim>\<open>previousQuestion\<close> moves it down by one
  unless it is on the first; at the boundary the state is unchanged. The cursor stays on a
  drawn question, and when every drawn question can be rendered (an interactive question,
  or one with options) both handlers return without an exception.
\<close>

theorem navigation_clamped:
  assumes c: "currentQuestionIndex s < length (shuffledQuestions s)"
  shows "snd (nextQuestion s) =
           (if currentQuestionIndex s < length (shuffledQuestions s) - 1
            then s\<lparr>currentQuestionIndex := currentQuestionIndex s + 1\<rparr> else s) \<and>
         snd (previousQuestion s) =
           (if 0 < currentQuestionIndex s
            then s\<lparr>currentQuestionIndex := currentQuestionIndex s - 1\<rparr> else s) \<and>
         currentQuestionIndex (snd (nextQuestion s)) < length (shuffledQuestions s) \<and>
         currentQuestionIndex (snd (previousQuestion s)) < length (shuffledQuestions s) \<and>
         ((\<forall>q \<in> set (shuffledQuestions s). qtype q = JStr ''interactive'' \<or> options q \<noteq> None)
            \<longrightarrow> fst (nextQuestion s) = Returned \<and> fst (previousQuestion s) = Returned)"
proof -
  have n1: "snd (nextQuestion s) =
           (if currentQuestionIndex s < length (shuffledQuestions s) - 1
            then s\<lparr>currentQuestionIndex := currentQuestionIndex s + 1\<rparr> else s)"
    using c by (auto simp: nextQuestion_def Let_def)
  have p1: "snd (previousQuestion s) =
           (if 0 < currentQuestionIndex s
            then s\<lparr>currentQuestionIndex := currentQuestionIndex s - 1\<rparr> else s)"
    by (simp add: previousQuestion_def Let_def)
  have n2: "currentQuestionIndex (snd (nextQuestion s)) < length (shuffledQuestions s)"
    using c by (auto simp: n1)
  have p2: "currentQuestionIndex (snd (previousQuestion s)) < length (shuffledQuestions s)"
    using c by (auto simp: p1)
  have r: "fst (nextQuestion s) = Returned \<and> fst (previousQuestion s) = Returned"
    if wf: "\<forall>q \<in> set (shuffledQuestions s). qtype q = JStr ''interactive'' \<or> options q \<noteq> None"
  proof -
    have d: "displayCurrentQuestion (s\<lparr>currentQuestionIndex := i\<rparr>)"
      if "i < length (shuffledQuestions s)" for i
      using that wf by (simp add: displayCurrentQuestion_def array_at_def)
    have "fst (nextQuestion s) = Returned"
      using c by (auto simp: nextQuestion_def Let_def intro: d)
    moreover have "fst (previousQuestion s) = Returned"
      using c by (auto simp: previousQuestion_def Let_def intro: d)
    ultimately show ?thesis by simp
  qed
  from n1 p1 n2 p2 r show ?thesis by blast
qed

text \<open>
  Five drawn questions: from the last one (cursor 4) next stays and previous goes to 3;
  from the first one previous stays and next goes to 1.
\<close>

theorem navigation_clamped_witness:
  "let s = choice_attempt (replicate 5 JNull); s0 = s\<lparr>currentQuestionIndex := 0\<rparr>
   in currentQuestionIndex s < length (shuffledQuestions s) \<and>
      nextQuestion s = (Returned, s) \<and>
      previousQuestion s = (Returned, s\<lparr>currentQuestionIndex := 3\<rparr>) \<and>
      snd (previousQuestion s0) = s0 \<and>
      snd (nextQuestion s0) = s0\<lparr>currentQuestionIndex := 1\<rparr>"
proof -
  define s where "s = choice_attempt (replicate 5 JNull)"
  define s0 where "s0 = s\<lparr>currentQuestionIndex := 0\<rparr>"
  have c: "currentQuestionIndex s = 4" and l: "length (shuffledQuestions s) = 5"
    by (simp_all add: s_def choice_attempt_def)
  have h: "currentQuestionIndex s < length (shuffledQuestions s)"
    by (simp add: c l)
  have c0: "currentQuestionIndex s0 = 0" and l0: "length (shuffledQuestions s0) = 5"
    by (simp_all add: s0_def l)
  have h0: "currentQuestionIndex s0 < length (shuffledQuestions s0)"
    by (simp add: c0 l0)
  have wf: "\<forall>q \<in> set (shuffledQuestions s). qtype q = JStr ''interactive'' \<or> options q \<noteq> None"
    by (simp add: s_def choice_attempt_def quizQuestions_def)
  from navigation_clamped [OF h] wf
  have a: "nextQuestion s = (Returned, s)"
    and b: "previousQuestion s = (Returned, s\<lparr>currentQuestionIndex := 3\<rparr>)"
    by (simp_all add: c l prod_eq_iff)
  from navigation_clamped [OF h0]
  have a0: "snd (previousQuestion s0) = s0"
    and b0: "snd (nextQuestion s0) = s0\<lparr>currentQuestionIndex := 1\<rparr>"
    by (simp_all add: c0 l0)
  from h a b a0 b0 show ?thesis
    unfolding Let_def s_def [symmetric] s0_def [symmetric] by blast
qed

section \<open>Interactive checkers\<close>

lemma array_get_array_set: "array_get (array_set xs i v) i = v"
  by (simp add: array_get_def array_set_def nth_append)

lemma checkCommandEquivalence_returns:
  "variations (normalize_cmd expectedCommand) \<noteq> Some Inherited \<Longrightarrow>
   checkCommandEquivalence userInput expectedCommand \<noteq> None"
  by (auto simp: checkCommandEquivalence_def Let_def split: option.splits variations_entry.splits)

lemma checkGitWorkflow_loop_all:
  "\<forall>(val, answer) \<in> set inputs. checkCommandEquivalence (trim val) answer \<noteq> None \<Longrightarrow>
   checkGitWorkflow_loop inputs allCorrect =
     Some (allCorrect \<and>
           (\<forall>(val, answer) \<in> set inputs. checkCommandEquivalence (trim val) answer = Some True))"
proof (induction inputs arbitrary: allCorrect)
  case Nil
  show ?case by simp
next
  case (Cons input inputs)
  obtain val answer where input: "input = (val, answer)" by (cases input)
  from Cons.prems obtain isCorrect where
    r: "checkCommandEquivalence (trim val) answer = Some isCorrect"
    by (auto simp: input)
  from Cons.prems have
    "\<forall>(val, answer) \<in> set inputs. checkCommandEquivalence (trim val) answer \<noteq> None"
    by simp
  note IH = Cons.IH [OF this]
  show ?case by (cases isCorrect) (simp_all add: input r IH)
qed

lemma checkBranchPractice_loop_count:
  "\<forall>(val, answer) \<in> set inputs. checkCommandEquivalence (trim val) answer \<noteq> None \<Longrightarrow>
   checkBranchPractice_loop inputs correctCount =
     Some (correctCount +
           length (filter (\<lambda>(val, answer). checkCommandEquivalence (trim val) answer = Some True)
                     inputs))"
proof (induction inputs arbitrary: correctCount)
  case Nil
  show ?case by simp
next
  case (Cons input inputs)
  obtain val answer where input: "input = (val, answer)" by (cases input)
  from Cons.prems obtain isCorrect where
    r: "checkCommandEquivalence (trim val) answer = Some isCorrect"
    by (auto simp: input)
  from Cons.prems have
    "\<forall>(val, answer) \<in> set inputs. checkCommandEquivalence (trim val) answer \<noteq> None"
    by simp
  note IH = Cons.IH [OF this]
  show ?case by (cases isCorrect) (simp_all add: input r IH)
qed

text \<open>
  C6. When the comparison of every step returns, \<^verbatim>\<open>checkGitWorkflow\<close> stores
  \<^verbatim>\<open>'correct'\<close> in the slot of the current question if every step matches its
  expected command and \<^verbatim>\<open>'incorrect'\<close> otherwise; \<^verbatim>\<open>checkBranchPractice\<close>
  stores \<^verbatim>\<open>'correct'\<close> if at least two steps match and \<^verbatim>\<open>'incorrect'\<close>
  otherwise. Nothing else of the state changes.
\<close>

theorem interactive_command_verdicts:
  assumes ret: "\<forall>(val, answer) \<in> set inputs. checkCommandEquivalence (trim val) answer \<noteq> None"
      and w: "workflowVerdict =
                (if \<forall>(val, answer) \<in> set inputs.
                      checkCommandEquivalence (trim val) answer = Some True
                 then JStr ''correct'' else JStr ''incorrect'')"
      and b: "branchVerdict =
                (if 2 \<le> length (filter (\<lambda>(val, answer).
                                  checkCommandEquivalence (trim val) answer = Some True) inputs)
                 then JStr ''correct'' else JStr ''incorrect'')"
  shows "checkGitWorkflow inputs s =
           (Returned, s\<lparr>userAnswers :=
              array_set (userAnswers s) (currentQuestionIndex s) workflowVerdict\<rparr>) \<and>
         array_get (userAnswers (snd (checkGitWorkflow inputs s))) (currentQuestionIndex s)
           = workflowVerdict \<and>
         checkBranchPractice inputs s =
           (Returned, s\<lparr>userAnswers :=
              array_set (userAnswers s) (currentQuestionIndex s) branchVerdict\<rparr>) \<and>
         array_get (userAnswers (snd (checkBranchPractice inputs s))) (currentQuestionIndex s)
           = branchVerdict"
proof -
  have g: "checkGitWorkflow inputs s =
           (Returned, s\<lparr>userAnswers :=
              array_set (userAnswers s) (currentQuestionIndex s) workflowVerdict\<rparr>)"
    by (simp add: checkGitWorkflow_def checkGitWorkflow_loop_all [OF ret] w)
  have p: "checkBranchPractice inputs s =
           (Returned, s\<lparr>userAnswers :=
              array_set (userAnswers s) (currentQuestionIndex s) branchVerdict\<rparr>)"
    by (simp add: checkBranchPractice_def checkBranchPractice_loop_count [OF ret] b Let_def)
  show ?thesis
    by (simp add: g p array_get_array_set)
qed

text \<open>
  The branch exercise with steps 1 and 3 right and step 2 wrong: two of three match, so
  \<^verbatim>\<open>checkBranchPractice\<close> stores \<^verbatim>\<open>'correct'\<close>, where the all-steps rule of
  \<^verbatim>\<open>checkGitWorkflow\<close> would store \<^verbatim>\<open>'incorrect'\<close>.
\<close>

theorem interactive_command_verdicts_witness:
  "let inputs = [(''git branch feature-login'', ''git branch feature-login''),
                 (''git checkout main'', ''git checkout feature-login''),
                 (''git switch -c feature-login'', ''git checkout -b feature-login'')];
       s = interactive_attempt [JNull]
   in (\<forall>(val, answer) \<in> set inputs. checkCommandEquivalence (trim val) answer \<noteq> None) \<and>
      snd (checkBranchPractice inputs s) = s\<lparr>userAnswers := [JStr ''correct'']\<rparr> \<and>
      snd (checkGitWorkflow inputs s) = s\<lparr>userAnswers := [JStr ''incorrect'']\<rparr>"
proof -
  define inputs where "inputs = [(''git branch feature-login'', ''git branch feature-login''),
                 (''git checkout main'', ''git checkout feature-login''),
                 (''git switch -c feature-login'', ''git checkout -b feature-login'')]"
  define s where "s = interactive_attempt [JNull]"
  have h: "\<forall>(val, answer) \<in> set inputs. checkCommandEquivalence (trim val) answer \<noteq> None"
    unfolding inputs_def by code_simp
  have all: "\<not> (\<forall>(val, answer) \<in> set inputs.
                 checkCommandEquivalence (trim val) answer = Some True)"
    unfolding inputs_def by code_simp
  have two: "length (filter (\<lambda>(val, answer).
                 checkCommandEquivalence (trim val) answer = Some True) inputs) = 2"
    unfolding inputs_def by code_simp
  have st: "array_set (userAnswers s) (currentQuestionIndex s) v = [v]" for v
    by (simp add: s_def interactive_attempt_def array_set_def)
  from interactive_command_verdicts [OF h refl refl, of s]
  have "snd (checkBranchPractice inputs s) = s\<lparr>userAnswers := [JStr ''correct'']\<rparr>"
    and "snd (checkGitWorkflow inputs s) = s\<lparr>userAnswers := [JStr ''incorrect'']\<rparr>"
    by (simp_all add: all two st)
  with h show ?thesis
    unfolding Let_def inputs_def [symmetric] s_def [symmetric] by blast
qed

lemma checkGitignoreBuilder_loop_all:
  "checkGitignoreBuilder_loop checkboxes allCorrect =
     (allCorrect \<and> (\<forall>cb \<in> set checkboxes. checked cb = (data_correct cb = JStr ''true'')))"
  by (induction checkboxes arbitrary: allCorrect) (auto simp: Let_def)

text \<open>
  C7. \<^verbatim>\<open>checkGitignoreBuilder\<close> stores \<^verbatim>\<open>'correct'\<close> in the slot of the current
  question if the checked state of every checkbox equals its expected state
  (\<^verbatim>\<open>data-correct\<close> is \<^verbatim>\<open>'true'\<close>), and \<^verbatim>\<open>'incorrect'\<close> as soon as one
  checkbox differs. Nothing else of the state changes.
\<close>

theorem gitignore_verdict:
  assumes v: "verdict =
                (if \<forall>cb \<in> set checkboxes. checked cb = (data_correct cb = JStr ''true'')
                 then JStr ''correct'' else JStr ''incorrect'')"
  shows "checkGitignoreBuilder checkboxes s =
           (Returned, s\<lparr>userAnswers :=
              array_set (userAnswers s) (currentQuestionIndex s) verdict\<rparr>) \<and>
         array_get (userAnswers (snd (checkGitignoreBuilder checkboxes s)))
           (currentQuestionIndex s) = verdict"
  by (simp add: checkGitignoreBuilder_def checkGitignoreBuilder_loop_all v Let_def
        array_get_array_set)

text \<open>
  The learner ticks \<^verbatim>\<open>node_modules/\<close> and \<^verbatim>\<open>.env\<close> and misses the rest: the
  verdict is \<^verbatim>\<open>'incorrect'\<close>. With all five expected checkboxes ticked and no other
  it is \<^verbatim>\<open>'correct'\<close>.
\<close>

theorem gitignore_verdict_witness:
  "let s = interactive_attempt [JNull]
   in snd (checkGitignoreBuilder (gitignore_checkboxes [''node_modules/'', ''.env'']) s)
        = s\<lparr>userAnswers := [JStr ''incorrect'']\<rparr> \<and>
      snd (checkGitignoreBuilder
            (gitignore_checkboxes [''node_modules/'', ''.env'', ''*.log'', ''dist/'', ''.DS_Store''])
            s)
        = s\<lparr>userAnswers := [JStr ''correct'']\<rparr>"
proof -
  define s where "s = interactive_attempt [JNull]"
  have miss: "\<not> (\<forall>cb \<in> set (gitignore_checkboxes [''node_modules/'', ''.env'']).
                  checked cb = (data_correct cb = JStr ''true''))"
    by code_simp
  have hit: "\<forall>cb \<in> set (gitignore_checkboxes
                         [''node_modules/'', ''.env'', ''*.log'', ''dist/'', ''.DS_Store'']).
               checked cb = (data_correct cb = JStr ''true'')"
    by code_simp
  have st: "array_set (userAnswers s) (currentQuestionIndex s) v = [v]" for v
    by (simp add: s_def interactive_attempt_def array_set_def)
  from gitignore_verdict [OF refl, of "gitignore_checkboxes [''node_modules/'', ''.env'']" s]
  have a: "snd (checkGitignoreBuilder (gitignore_checkboxes [''node_modules/'', ''.env'']) s)
        = s\<lparr>userAnswers := [JStr ''incorrect'']\<rparr>"
    by (simp add: miss st)
  from gitignore_verdict [OF refl, of "gitignore_checkboxes
         [''node_modules/'', ''.env'', ''*.log'', ''dist/'', ''.DS_Store'']" s]
  have b: "snd (checkGitignoreBuilder
            (gitignore_checkboxes [''node_modules/'', ''.env'', ''*.log'', ''dist/'', ''.DS_Store''])
            s)
        = s\<lparr>userAnswers := [JStr ''correct'']\<rparr>"
    by (simp add: hit st)
  from a b show ?thesis
    unfolding Let_def s_def [symmetric] by blast
qed

section \<open>Review\<close>

lemma review_loop_with_options:
  "\<forall>q \<in> set qs. options q \<noteq> None \<Longrightarrow> index + length qs \<le> length answers \<Longrightarrow>
   review_loop qs index answers =
     Some (map (\<lambda>(q, a). a = correct q) (zip qs (drop index answers)))"
proof (induction qs arbitrary: index)
  case Nil
  show ?case by simp
next
  case (Cons q qs)
  from Cons.prems have lt: "index < length answers" by simp
  then have d: "drop index answers = answers ! index # drop (Suc index) answers"
    by (simp add: Cons_nth_drop_Suc)
  from Cons.prems have "\<forall>q \<in> set qs. options q \<noteq> None"
    and "Suc index + length qs \<le> length answers" by simp_all
  note IH = Cons.IH [OF this]
  from Cons.prems have "options q \<noteq> None" by simp
  then show ?case
    using lt by (simp add: d IH review_question_def review_isCorrect_def array_get_def)
qed

text \<open>
  On an attempt of multiple-choice questions only, the review flags are the scorer's
  rule: the stored answer equals the correct option index.
\<close>

lemma showQuizResults_choice_questions:
  assumes "\<forall>q \<in> set (shuffledQuestions s). options q \<noteq> None"
      and "length (userAnswers s) = length (shuffledQuestions s)"
  shows "showQuizResults s =
           Some (map (\<lambda>(q, a). a = correct q) (zip (shuffledQuestions s) (userAnswers s)))"
  using review_loop_with_options [of "shuffledQuestions s" 0 "userAnswers s"] assms
  by (simp add: showQuizResults_def)

text \<open>
  C4 fails on an interactive question. The attempt holds the git-workflow question of the
  pool, answered with the verdict \<^verbatim>\<open>'correct'\<close>. The scorer counts it (1 of 1, 100
  percent, passed), but the review computes \<^verbatim>\<open>isCorrect\<close> as
  \<^verbatim>\<open>userAnswer === q.correct\<close>, which is false since the question has no
  \<^verbatim>\<open>correct\<close>, and then reads \<^verbatim>\<open>q.options[userAnswer]\<close> of a question without
  \<^verbatim>\<open>options\<close>: \<^verbatim>\<open>showQuizResults\<close>, and with it \<^verbatim>\<open>submitQuiz\<close>, ends in a
  TypeError after the score is stored.
\<close>

theorem review_interactive_divergence:
  "let s = interactive_attempt [JStr ''correct'']
   in qtype (shuffledQuestions s ! 0) = JStr ''interactive'' \<and>
      scoreQuiz (userAnswers s) (shuffledQuestions s) = Some (1, Fin 100, True) \<and>
      review_isCorrect (shuffledQuestions s ! 0) (userAnswers s ! 0) = False \<and>
      showQuizResults (s\<lparr>quizCompleted := True, finalQuizScore := Fin 100\<rparr>) = None \<and>
      submitQuiz s = (Threw, s\<lparr>quizCompleted := True, finalQuizScore := Fin 100\<rparr>)"
  by code_simp

end
